theory Spec2Isabelle
  imports Main "HOL-Library.Multiset"
begin

section \<open>The store: schema and SQL statements of server.ts\<close>

text \<open>
  The two tables created at server.ts lines 13-28. Identifiers and text columns are
  strings, a character being a code unit below 256; a
  \<open>DATETIME DEFAULT CURRENT_TIMESTAMP\<close> column holds the reading of the host clock in
  whole seconds, a natural number. A table is the list of its rows in
  insertion order, which for \<open>messages\<close> is the order of the rowid.
\<close>

record thread =
  thr_id :: string
  thr_title :: string
  thr_created_at :: nat
  thr_updated_at :: nat

record message =
  msg_id :: nat
  msg_thread_id :: string
  msg_role :: string
  msg_content :: string
  msg_created_at :: nat

text \<open>
  \<open>sqlite_sequence\<close> is the counter that \<open>AUTOINCREMENT\<close> keeps for the table
  \<open>messages\<close>: the largest rowid ever handed out.
\<close>

record database =
  threads :: "thread list"
  messages :: "message list"
  sqlite_sequence :: nat

text \<open>
  A statement that violates a constraint of the schema throws a \<open>SqliteError\<close>
  carrying one of these codes; Express answers the request with status 500 and the
  statement leaves no trace in the database.
\<close>

datatype sqlite_error = SQLITE_CONSTRAINT_PRIMARYKEY | SQLITE_CONSTRAINT_FOREIGNKEY

definition init_db :: database where
  "init_db = \<lparr>threads = [], messages = [], sqlite_sequence = 0\<rparr>"

definition thread_exists :: "string \<Rightarrow> database \<Rightarrow> bool" where
  "thread_exists i d = (i \<in> set (map thr_id (threads d)))"

text \<open>
  \<open>INSERT INTO threads (id, title) VALUES (?, ?)\<close> (line 44): \<open>id\<close> is the primary
  key, both timestamps take their default.
\<close>

definition insert_thread :: "nat \<Rightarrow> string \<Rightarrow> string \<Rightarrow> database \<Rightarrow> sqlite_error + database" where
  "insert_thread now i ttl d =
     (if thread_exists i d then Inl SQLITE_CONSTRAINT_PRIMARYKEY
      else Inr (d\<lparr>threads := threads d @
                  [\<lparr>thr_id = i, thr_title = ttl, thr_created_at = now, thr_updated_at = now\<rparr>]\<rparr>))"

text \<open>
  The rowid of an \<open>INTEGER PRIMARY KEY AUTOINCREMENT\<close> column: one more than the
  largest rowid that is or ever was in the table.
\<close>

definition next_rowid :: "database \<Rightarrow> nat" where
  "next_rowid d = Suc (fold max (map msg_id (messages d)) (sqlite_sequence d))"

text \<open>
  \<open>INSERT INTO messages (thread_id, role, content) VALUES (?, ?, ?)\<close> (line 55).
  The table declares \<open>FOREIGN KEY(thread_id) REFERENCES threads(id) ON DELETE CASCADE\<close>
  (line 26), and the connection opened by better-sqlite3 at line 10 enforces foreign
  keys, so a row whose \<open>thread_id\<close> names no thread is refused. \<open>role\<close> and
  \<open>content\<close> are plain \<open>TEXT\<close> columns without any check.
\<close>

definition insert_message ::
  "nat \<Rightarrow> string \<Rightarrow> string \<Rightarrow> string \<Rightarrow> database \<Rightarrow> sqlite_error + database" where
  "insert_message now tid r c d =
     (if \<not> thread_exists tid d then Inl SQLITE_CONSTRAINT_FOREIGNKEY
      else let n = next_rowid d in
        Inr (d\<lparr>messages := messages d @
                 [\<lparr>msg_id = n, msg_thread_id = tid, msg_role = r, msg_content = c,
                   msg_created_at = now\<rparr>],
               sqlite_sequence := n\<rparr>))"

text \<open>\<open>UPDATE threads SET updated_at = CURRENT_TIMESTAMP WHERE id = ?\<close> (line 56).\<close>

definition update_updated_at :: "nat \<Rightarrow> string \<Rightarrow> database \<Rightarrow> database" where
  "update_updated_at now i d =
     d\<lparr>threads := map (\<lambda>t. if thr_id t = i then t\<lparr>thr_updated_at := now\<rparr> else t) (threads d)\<rparr>"

text \<open>
  \<open>DELETE FROM threads WHERE id = ?\<close> (line 61). The rows of \<open>messages\<close> that
  reference a deleted thread go with it (\<open>ON DELETE CASCADE\<close>); when no thread row
  is deleted nothing cascades.
\<close>

definition delete_from_threads :: "string \<Rightarrow> database \<Rightarrow> database" where
  "delete_from_threads i d =
     d\<lparr>threads := filter (\<lambda>t. thr_id t \<noteq> i) (threads d),
       messages := (if thread_exists i d
                    then filter (\<lambda>m. msg_thread_id m \<noteq> i) (messages d)
                    else messages d)\<rparr>"

text \<open>\<open>UPDATE threads SET title = ? WHERE id = ?\<close> (line 67).\<close>

definition update_title :: "string \<Rightarrow> string \<Rightarrow> database \<Rightarrow> database" where
  "update_title ttl i d =
     d\<lparr>threads := map (\<lambda>t. if thr_id t = i then t\<lparr>thr_title := ttl\<rparr> else t) (threads d)\<rparr>"

text \<open>
  \<open>SELECT * FROM messages WHERE thread_id = ? ORDER BY created_at ASC\<close> (line 49):
  the table is scanned in rowid order and the selected rows are sorted on
  \<open>created_at\<close> alone; the sort keeps rows with equal keys in scan order.
\<close>

definition select_messages :: "string \<Rightarrow> database \<Rightarrow> message list" where
  "select_messages tid d =
     sort_key msg_created_at (filter (\<lambda>m. msg_thread_id m = tid) (messages d))"

section \<open>The route handlers of server.ts\<close>

text \<open>
  Each handler runs its statements and answers \<open>{success: true}\<close> (or the rows);
  \<open>Inr\<close> is that answer together with the database it leaves, \<open>Inl\<close> the error
  thrown by a statement. The clock readings of the statements are parameters.
  The handlers are anonymous in the source; they are named here after the store
  operations they implement.
\<close>

text \<open>\<open>app.post("/api/threads")\<close>, lines 42-46.\<close>

definition createThread :: "nat \<Rightarrow> string \<Rightarrow> string \<Rightarrow> database \<Rightarrow> sqlite_error + database" where
  "createThread now i ttl d = insert_thread now i ttl d"

text \<open>\<open>app.get("/api/threads/:id/messages")\<close>, lines 48-51.\<close>

definition listMessages :: "string \<Rightarrow> database \<Rightarrow> sqlite_error + message list" where
  "listMessages tid d = Inr (select_messages tid d)"

text \<open>
  \<open>app.post("/api/threads/:id/messages")\<close>, lines 53-58: the insert at clock reading
  \<open>t1\<close>, then the update of the thread at the later reading \<open>t2\<close>. When the insert
  throws, the update is not reached.
\<close>

definition appendMessage ::
  "nat \<Rightarrow> nat \<Rightarrow> string \<Rightarrow> string \<Rightarrow> string \<Rightarrow> database \<Rightarrow> sqlite_error + database" where
  "appendMessage t1 t2 tid r c d =
     (case insert_message t1 tid r c d of
        Inl e \<Rightarrow> Inl e
      | Inr d' \<Rightarrow> Inr (update_updated_at t2 tid d'))"

text \<open>\<open>app.delete("/api/threads/:id")\<close>, lines 60-63.\<close>

definition deleteThread :: "string \<Rightarrow> database \<Rightarrow> sqlite_error + database" where
  "deleteThread i d = Inr (delete_from_threads i d)"

text \<open>\<open>app.patch("/api/threads/:id")\<close>, lines 65-69.\<close>

definition renameThread :: "string \<Rightarrow> string \<Rightarrow> database \<Rightarrow> sqlite_error + database" where
  "renameThread i ttl d = Inr (update_title ttl i d)"

section \<open>The server as a state machine\<close>

text \<open>
  A request names the handler, its arguments and the readings of the host clock that
  its statements take: \<open>CURRENT_TIMESTAMP\<close> is read once by the insert of
  \<open>CreateThread\<close> and twice by \<open>AppendMessage\<close>, by the \<open>INSERT\<close> and then by the
  \<open>UPDATE\<close>. The readings are those of the wall clock and are not related to each
  other by the model. The state is the database; a request whose handler throws leaves
  it as it was. The handlers are synchronous, so requests are served one after the
  other; every statement is committed on its own, so the database after the \<open>INSERT\<close>
  of an append and before its \<open>UPDATE\<close> is \<open>insert_message\<close> applied to the database
  before.
\<close>

datatype request =
    CreateThread string string nat
  | ListMessages string
  | AppendMessage string string string nat nat
  | DeleteThread string
  | RenameThread string string

definition commit :: "database \<Rightarrow> sqlite_error + database \<Rightarrow> database" where
  "commit d res = (case res of Inl e \<Rightarrow> d | Inr d' \<Rightarrow> d')"

fun handle :: "request \<Rightarrow> database \<Rightarrow> database" where
  "handle (CreateThread i ttl now) d = commit d (createThread now i ttl d)"
| "handle (ListMessages tid) d = d"
| "handle (AppendMessage tid r c t1 t2) d = commit d (appendMessage t1 t2 tid r c d)"
| "handle (DeleteThread i) d = commit d (deleteThread i d)"
| "handle (RenameThread i ttl) d = commit d (renameThread i ttl d)"

fun run :: "database \<Rightarrow> request list \<Rightarrow> database" where
  "run d [] = d"
| "run d (r # rs) = run (handle r d) rs"

text \<open>The clock readings of a request, and of a sequence of requests, in the order they are taken.\<close>

fun readings :: "request \<Rightarrow> nat list" where
  "readings (CreateThread i ttl now) = [now]"
| "readings (AppendMessage tid r c t1 t2) = [t1, t2]"
| "readings (ListMessages tid) = []"
| "readings (DeleteThread i) = []"
| "readings (RenameThread i ttl) = []"

definition all_readings :: "request list \<Rightarrow> nat list" where
  "all_readings rs = concat (map readings rs)"

text \<open>
  A sequence of \<open>appendMessage\<close> calls on one thread, each with its role, its content
  and its two clock readings.
\<close>

definition appends :: "string \<Rightarrow> (string \<times> string \<times> nat \<times> nat) list \<Rightarrow> request list" where
  "appends tid ps = map (\<lambda>(r, c, t1, t2). AppendMessage tid r c t1 t2) ps"

section \<open>The routes of server.ts\<close>

text \<open>
  An HTTP request is a verb, the segments of its path, the string fields of its JSON
  body and the clock readings of the statements it may run. \<open>route\<close> gives the handler
  call that server.ts registers for it (lines 42-69), with \<open>:id\<close> taking the third
  segment; \<open>None\<close> when none of these routes applies or when the body lacks a field
  that the handler binds, so that no statement runs. The listing of the threads (line
  37) only reads and is left out. Such a request falls through to the
  Vite or static middleware (lines 71-83), which does not use the database. Paths are
  written in lower case and without a trailing slash, as the component writes them.
\<close>

datatype verb = GET | POST | DELETE | PATCH

fun route :: "verb \<Rightarrow> string list \<Rightarrow> (string \<times> string) list \<Rightarrow> nat \<times> nat \<Rightarrow> request option" where
  "route POST [a, t] b (t1, t2) =
     (if a = ''api'' \<and> t = ''threads'' then
        (case (map_of b ''id'', map_of b ''title'') of
           (Some i, Some ttl) \<Rightarrow> Some (CreateThread i ttl t1)
         | _ \<Rightarrow> None)
      else None)"
| "route GET [a, t, i, m] b (t1, t2) =
     (if a = ''api'' \<and> t = ''threads'' \<and> i \<noteq> [] \<and> m = ''messages'' then Some (ListMessages i)
      else None)"
| "route POST [a, t, i, m] b (t1, t2) =
     (if a = ''api'' \<and> t = ''threads'' \<and> i \<noteq> [] \<and> m = ''messages'' then
        (case (map_of b ''role'', map_of b ''content'') of
           (Some r, Some c) \<Rightarrow> Some (AppendMessage i r c t1 t2)
         | _ \<Rightarrow> None)
      else None)"
| "route DELETE [a, t, i] b (t1, t2) =
     (if a = ''api'' \<and> t = ''threads'' \<and> i \<noteq> [] then Some (DeleteThread i) else None)"
| "route PATCH [a, t, i] b (t1, t2) =
     (if a = ''api'' \<and> t = ''threads'' \<and> i \<noteq> [] then
        (case map_of b ''title'' of Some ttl \<Rightarrow> Some (RenameThread i ttl) | None \<Rightarrow> None)
      else None)"
| "route m p b ts = None"

text \<open>The database after the server has answered an HTTP request.\<close>

definition serve ::
  "verb \<Rightarrow> string list \<Rightarrow> (string \<times> string) list \<Rightarrow> nat \<times> nat \<Rightarrow> database \<Rightarrow> database" where
  "serve m p b ts d = (case route m p b ts of None \<Rightarrow> d | Some r \<Rightarrow> handle r d)"

section \<open>The chat component (the React component \<open>App\<close>)\<close>

text \<open>
  The client's message type: \<open>role\<close> is the union \<open>"user" | "model"\<close>, \<open>id\<close> is
  optional and absent on the messages the component builds itself.
\<close>

datatype role = User | Model

fun role_text :: "role \<Rightarrow> string" where
  "role_text User = ''user''"
| "role_text Model = ''model''"

record Message =
  ident :: "nat option"
  role :: role
  content :: string

text \<open>One element of the \<open>contents\<close> sent to the model: \<open>{role, parts: [{text}]}\<close>.\<close>

record Part =
  part_text :: string

record Content =
  c_role :: role
  parts :: "Part list"

text \<open>
  The state variables of the component that a turn reads or writes. The state variable
  \<open>messages\<close> is called \<open>messages_state\<close> here, apart from the table of the same name.
\<close>

record app =
  currentChatId :: "string option"
  messages_state :: "Message list"
  input :: string
  isLoading :: bool

text \<open>
  What one turn takes from outside the component: the value of \<open>crypto.randomUUID()\<close>,
  the model call \<open>ai.models.generateContent\<close> (\<open>None\<close> when the call throws, otherwise
  \<open>response.text\<close>, the empty string standing for a missing text), and the clock
  readings of the server for each of the three requests the turn may send.
\<close>

record turn =
  uuid :: string
  generateContent :: "Content list \<Rightarrow> string option"
  t_create :: "nat \<times> nat"
  t_user :: "nat \<times> nat"
  t_reply :: "nat \<times> nat"

text \<open>
  \<open>String.prototype.trim\<close>: of the code units below 256 it strips tab, line feed,
  vertical tab, form feed, carriage return, space and the no-break space.
\<close>

definition is_white_space :: "char \<Rightarrow> bool" where
  "is_white_space c =
     (c \<in> set [CHR 0x09, CHR 0x0A, CHR 0x0B, CHR 0x0C, CHR 0x0D, CHR 0x20, CHR 0xA0])"

definition trim :: "string \<Rightarrow> string" where
  "trim s = rev (dropWhile is_white_space (rev (dropWhile is_white_space s)))"

text \<open>
  The argument \<open>contents\<close> of the model call (lines 189-192 of the component):
  \<open>[...messages, userMessage].map(m => ({role: m.role, parts: [{text: m.content}]}))\<close>.
  The spread and \<open>map\<close> build new arrays; the history is only read.
\<close>

definition contents :: "Message list \<Rightarrow> Message \<Rightarrow> Content list" where
  "contents msgs userMessage =
     map (\<lambda>m. \<lparr>c_role = role m, parts = [\<lparr>part_text = content m\<rparr>]\<rparr>) (msgs @ [userMessage])"

text \<open>
  \<open>handleSendMessage\<close> (lines 154-212). Its requests go to the paths the source writes:
  \<open>POST /api/chats\<close> with \<open>{id, title}\<close> (line 163) and
  \<open>POST /api/chats/${chatId}/messages\<close> with the message (lines 180 and 201), the chat
  id being one path segment. \<open>fetch\<close> resolves whatever the status of the answer, so
  only a throwing model call reaches the \<open>catch\<close> block. The sidebar list \<open>chats\<close>,
  which \<open>fetchChats\<close> reloads after a chat was created, is not part of the model, nor is
  the effect that reloads \<open>messages\<close> when \<open>currentChatId\<close> changes.
\<close>

definition handleSendMessage :: "turn \<Rightarrow> app \<times> database \<Rightarrow> app \<times> database" where
  "handleSendMessage e = (\<lambda>(cl, d).
     if trim (input cl) = [] \<or> isLoading cl then (cl, d)
     else
       let (chatId, cl1, d1) =
             (case currentChatId cl of
                Some c \<Rightarrow> (c, cl, d)
              | None \<Rightarrow>
                  let i = uuid e;
                      title = take 30 (input cl) @ (if length (input cl) > 30 then ''...'' else [])
                  in (i, cl\<lparr>currentChatId := Some i\<rparr>,
                      serve POST [''api'', ''chats''] [(''id'', i), (''title'', title)] (t_create e) d));
           userMessage = \<lparr>ident = None, role = User, content = input cl\<rparr>;
           cl2 = cl1\<lparr>messages_state := messages_state cl1 @ [userMessage], input := [],
                     isLoading := True\<rparr>;
           d2 = serve POST [''api'', ''chats'', chatId, ''messages'']
                  [(''role'', role_text (role userMessage)), (''content'', content userMessage)]
                  (t_user e) d1
       in case generateContent e (contents (messages_state cl) userMessage) of
            None \<Rightarrow>
              (cl2\<lparr>messages_state := messages_state cl2 @
                      [\<lparr>ident = None, role = Model,
                        content = ''Error: Failed to connect to AI service.''\<rparr>],
                    isLoading := False\<rparr>,
               d2)
          | Some txt \<Rightarrow>
              let aiContent = (if txt = [] then ''I'm sorry, I couldn't generate a response.'' else txt);
                  aiMessage = \<lparr>ident = None, role = Model, content = aiContent\<rparr>
              in (cl2\<lparr>messages_state := messages_state cl2 @ [aiMessage], isLoading := False\<rparr>,
                  serve POST [''api'', ''chats'', chatId, ''messages'']
                    [(''role'', role_text (role aiMessage)), (''content'', content aiMessage)]
                    (t_reply e) d2))"

text \<open>
  \<open>generateChatResponse\<close> of the Gemini service module, which the component does not
  call: it opens a fresh chat and sends the message alone (\<open>chat.sendMessage({message})\<close>,
  here the parameter \<open>sendMessage\<close>); its \<open>history\<close> argument is not used.
\<close>

definition generateChatResponse ::
  "(string \<Rightarrow> string option) \<Rightarrow> string \<Rightarrow> (string \<times> string) list \<Rightarrow> string option" where
  "generateChatResponse sendMessage message history = sendMessage message"

section \<open>A scenario: thread T2 with one prior exchange\<close>

definition T2_db :: database where
  "T2_db = run init_db
     [CreateThread ''T2'' ''Second'' 1, AppendMessage ''T2'' ''user'' ''Hi'' 2 2,
      AppendMessage ''T2'' ''model'' ''Hello'' 3 3]"

definition T2_app :: app where
  "T2_app = \<lparr>currentChatId = Some ''T2'',
              messages_state = [\<lparr>ident = Some 1, role = User, content = ''Hi''\<rparr>,
                                \<lparr>ident = Some 2, role = Model, content = ''Hello''\<rparr>],
              input = ''How are you?'', isLoading = False\<rparr>"

definition failing_turn :: turn where
  "failing_turn = \<lparr>uuid = ''u-1'', generateContent = (\<lambda>cs. None), t_create = (5, 5),
                    t_user = (5, 5), t_reply = (6, 6)\<rparr>"

section \<open>Invariants of the store\<close>

text \<open>No message row references a thread that is not there.\<close>

definition no_orphans :: "database \<Rightarrow> bool" where
  "no_orphans d = (\<forall>m \<in> set (messages d). thread_exists (msg_thread_id m) d)"

text \<open>
  The invariant of the rows, whatever the clock readings: no orphans; the table
  \<open>messages\<close> is in the order of strictly growing \<open>id\<close>; no two threads share an id.
\<close>

definition wf_rows :: "database \<Rightarrow> bool" where
  "wf_rows d =
     (no_orphans d
      \<and> sorted_wrt (<) (map msg_id (messages d))
      \<and> distinct (map thr_id (threads d)))"

text \<open>
  The invariant of the timestamps, kept as long as the clock readings never decrease,
  \<open>c\<close> being the last reading: no thread was touched after \<open>c\<close>; no message is younger
  than the last update of its thread; the table \<open>messages\<close> is in the order of
  \<open>created_at\<close>.
\<close>

definition timely :: "nat \<Rightarrow> database \<Rightarrow> bool" where
  "timely c d =
     ((\<forall>t \<in> set (threads d). thr_updated_at t \<le> c)
      \<and> (\<forall>t \<in> set (threads d). \<forall>m \<in> set (messages d).
            msg_thread_id m = thr_id t \<longrightarrow> msg_created_at m \<le> thr_updated_at t)
      \<and> sorted (map msg_created_at (messages d)))"

text \<open>The order by \<open>created_at\<close> in which equal timestamps are ordered by \<open>id\<close>.\<close>

definition created_then_id :: "message \<Rightarrow> message \<Rightarrow> bool" where
  "created_then_id a b =
     (msg_created_at a < msg_created_at b
      \<or> (msg_created_at a = msg_created_at b \<and> msg_id a < msg_id b))"

declare handle.simps [simp del]

lemmas handler_defs =
  handle.simps init_db_def commit_def thread_exists_def next_rowid_def
  createThread_def insert_thread_def appendMessage_def insert_message_def update_updated_at_def
  deleteThread_def delete_from_threads_def renameThread_def update_title_def
  listMessages_def select_messages_def

section \<open>What the handlers do to the tables\<close>

lemma fold_max_ge: "a \<le> fold max xs (a::nat)"
  by (induction xs arbitrary: a) (auto intro: order_trans [OF max.cobounded2])

lemma fold_max_mem: "x \<in> set xs \<Longrightarrow> x \<le> fold max xs (a::nat)"
proof (induction xs arbitrary: a)
  case Nil then show ?case by simp
next
  case (Cons y ys)
  show ?case
  proof (cases "x = y")
    case True
    have "y \<le> max y a" by simp
    also have "\<dots> \<le> fold max ys (max y a)" by (rule fold_max_ge)
    finally show ?thesis using True by simp
  next
    case False
    with Cons show ?thesis by simp
  qed
qed

lemma next_rowid_fresh: "m \<in> set (messages d) \<Longrightarrow> msg_id m < next_rowid d"
  unfolding next_rowid_def using fold_max_mem [of "msg_id m" "map msg_id (messages d)"]
  by (simp add: less_Suc_eq_le)

lemma sorted_wrt_map_filter:
  "sorted_wrt P (map f xs) \<Longrightarrow> sorted_wrt P (map f (filter Q xs))"
  by (induction xs) auto

lemma map_updated_ids:
  "map thr_id (map (\<lambda>t. if thr_id t = i then t\<lparr>thr_updated_at := now\<rparr> else t) ts) = map thr_id ts"
  by (induction ts) auto

lemma map_title_ids:
  "map thr_id (map (\<lambda>t. if thr_id t = i then t\<lparr>thr_title := ttl\<rparr> else t) ts) = map thr_id ts"
  by (induction ts) auto

lemma create_exists: "thread_exists i d \<Longrightarrow> handle (CreateThread i ttl now) d = d"
  by (simp add: handle.simps commit_def createThread_def insert_thread_def)

lemma create_fresh:
  "\<not> thread_exists i d \<Longrightarrow> handle (CreateThread i ttl now) d =
     d\<lparr>threads := threads d @
        [\<lparr>thr_id = i, thr_title = ttl, thr_created_at = now, thr_updated_at = now\<rparr>]\<rparr>"
  by (simp add: handle.simps commit_def createThread_def insert_thread_def)

lemma append_missing: "\<not> thread_exists tid d \<Longrightarrow> handle (AppendMessage tid r c t1 t2) d = d"
  by (simp add: handle.simps commit_def appendMessage_def insert_message_def)

lemma append_existing:
  assumes "thread_exists tid d"
  shows "messages (handle (AppendMessage tid r c t1 t2) d)
           = messages d @
             [\<lparr>msg_id = next_rowid d, msg_thread_id = tid, msg_role = r, msg_content = c,
               msg_created_at = t1\<rparr>]"
    and "threads (handle (AppendMessage tid r c t1 t2) d)
           = map (\<lambda>t. if thr_id t = tid then t\<lparr>thr_updated_at := t2\<rparr> else t) (threads d)"
    and "thread_exists tid (handle (AppendMessage tid r c t1 t2) d)"
proof -
  show m: "messages (handle (AppendMessage tid r c t1 t2) d)
           = messages d @
             [\<lparr>msg_id = next_rowid d, msg_thread_id = tid, msg_role = r, msg_content = c,
               msg_created_at = t1\<rparr>]"
    using assms
    by (simp add: handle.simps commit_def appendMessage_def insert_message_def update_updated_at_def Let_def)
  show t: "threads (handle (AppendMessage tid r c t1 t2) d)
           = map (\<lambda>t. if thr_id t = tid then t\<lparr>thr_updated_at := t2\<rparr> else t) (threads d)"
    using assms
    by (simp add: handle.simps commit_def appendMessage_def insert_message_def update_updated_at_def Let_def)
  show "thread_exists tid (handle (AppendMessage tid r c t1 t2) d)"
    using assms unfolding thread_exists_def t map_updated_ids .
qed

lemma delete_state: "handle (DeleteThread i) d = delete_from_threads i d"
  by (simp add: handle.simps commit_def deleteThread_def)

lemma rename_state: "handle (RenameThread i ttl) d = update_title ttl i d"
  by (simp add: handle.simps commit_def renameThread_def)

section \<open>The invariant of the rows holds in every reachable state\<close>

lemma wf_rows_init: "wf_rows init_db"
  by (simp add: wf_rows_def no_orphans_def init_db_def)

lemma wf_rows_create: "wf_rows d \<Longrightarrow> wf_rows (handle (CreateThread i ttl now) d)"
proof (cases "thread_exists i d")
  case True
  assume "wf_rows d"
  then show ?thesis by (simp add: create_exists [OF True])
next
  case False
  assume w: "wf_rows d"
  show ?thesis
    unfolding create_fresh [OF False]
    using w False by (auto simp: wf_rows_def no_orphans_def thread_exists_def)
qed

lemma wf_rows_append: "wf_rows d \<Longrightarrow> wf_rows (handle (AppendMessage tid r c t1 t2) d)"
proof (cases "thread_exists tid d")
  case False
  assume "wf_rows d"
  then show ?thesis by (simp add: append_missing [OF False])
next
  case True
  assume w: "wf_rows d"
  let ?d' = "handle (AppendMessage tid r c t1 t2) d"
  note ms = append_existing(1) [OF True, of r c t1 t2]
  note ts = append_existing(2) [OF True, of r c t1 t2]
  have ids: "map thr_id (threads ?d') = map thr_id (threads d)"
    unfolding ts by (rule map_updated_ids)
  have 1: "no_orphans ?d'"
    using w True unfolding no_orphans_def thread_exists_def ids ms
    by (auto simp: wf_rows_def no_orphans_def thread_exists_def)
  have 2: "sorted_wrt (<) (map msg_id (messages ?d'))"
  proof -
    have "\<forall>x \<in> set (map msg_id (messages d)). x < next_rowid d"
      using next_rowid_fresh [of _ d] by auto
    moreover have "sorted_wrt (<) (map msg_id (messages d))"
      using w by (simp add: wf_rows_def)
    ultimately show ?thesis unfolding ms by (simp add: sorted_wrt_append)
  qed
  have 3: "distinct (map thr_id (threads ?d'))"
    using w unfolding ids by (simp add: wf_rows_def)
  show ?thesis unfolding wf_rows_def using 1 2 3 by blast
qed

lemma messages_after_delete:
  assumes "no_orphans d" and "m \<in> set (messages (delete_from_threads i d))"
  shows "msg_thread_id m \<noteq> i"
proof (cases "thread_exists i d")
  case True
  with assms(2) show ?thesis by (simp add: delete_from_threads_def)
next
  case False
  from assms(2) False have "m \<in> set (messages d)" by (simp add: delete_from_threads_def)
  with assms(1) have "thread_exists (msg_thread_id m) d" by (simp add: no_orphans_def)
  with False show ?thesis by auto
qed

lemma wf_rows_delete: "wf_rows d \<Longrightarrow> wf_rows (handle (DeleteThread i) d)"
proof -
  assume w: "wf_rows d"
  let ?d' = "delete_from_threads i d"
  have no: "no_orphans d" using w by (simp add: wf_rows_def)
  have thr: "set (threads ?d') = {t \<in> set (threads d). thr_id t \<noteq> i}"
    by (simp add: delete_from_threads_def)
  have msub: "set (messages ?d') \<subseteq> set (messages d)"
    by (auto simp: delete_from_threads_def)
  have 1: "no_orphans ?d'"
    unfolding no_orphans_def thread_exists_def
  proof
    fix m assume m: "m \<in> set (messages ?d')"
    with msub have "m \<in> set (messages d)" by blast
    with no have "thread_exists (msg_thread_id m) d" by (simp add: no_orphans_def)
    then obtain t where "t \<in> set (threads d)" "thr_id t = msg_thread_id m"
      by (auto simp: thread_exists_def)
    with messages_after_delete [OF no m] thr
    show "msg_thread_id m \<in> set (map thr_id (threads ?d'))" by force
  qed
  have 2: "sorted_wrt (<) (map msg_id (messages ?d'))"
    using w by (simp add: delete_from_threads_def wf_rows_def sorted_wrt_map_filter)
  have 3: "distinct (map thr_id (threads ?d'))"
    using w by (simp add: delete_from_threads_def wf_rows_def distinct_map_filter)
  show ?thesis unfolding delete_state wf_rows_def using 1 2 3 by blast
qed

lemma wf_rows_rename: "wf_rows d \<Longrightarrow> wf_rows (handle (RenameThread i ttl) d)"
proof -
  assume w: "wf_rows d"
  let ?d' = "update_title ttl i d"
  have ms: "messages ?d' = messages d" by (simp add: update_title_def)
  have ids: "map thr_id (threads ?d') = map thr_id (threads d)"
    by (simp add: update_title_def map_title_ids)
  show ?thesis
    unfolding rename_state wf_rows_def no_orphans_def thread_exists_def ids ms
    using w by (simp add: wf_rows_def no_orphans_def thread_exists_def)
qed

lemma wf_rows_handle:
  assumes "wf_rows d"
  shows "wf_rows (handle r d)"
proof (cases r)
  case (CreateThread i ttl now)
  show ?thesis unfolding CreateThread by (rule wf_rows_create [OF assms])
next
  case (ListMessages tid)
  show ?thesis unfolding ListMessages using assms by (simp add: handle.simps)
next
  case (AppendMessage tid r c t1 t2)
  show ?thesis unfolding AppendMessage by (rule wf_rows_append [OF assms])
next
  case (DeleteThread i)
  show ?thesis unfolding DeleteThread by (rule wf_rows_delete [OF assms])
next
  case (RenameThread i ttl)
  show ?thesis unfolding RenameThread by (rule wf_rows_rename [OF assms])
qed

lemma wf_rows_run: "wf_rows d \<Longrightarrow> wf_rows (run d rs)"
  by (induction rs arbitrary: d) (simp_all add: wf_rows_handle)

lemma wf_rows_reachable: "wf_rows (run init_db rs)"
  by (rule wf_rows_run [OF wf_rows_init])

section \<open>The invariant of the timestamps holds while the clock does not go back\<close>

lemma timely_later: "timely c d \<Longrightarrow> c \<le> c' \<Longrightarrow> timely c' d"
  unfolding timely_def by (meson order_trans)

lemma created_le_clock:
  assumes "no_orphans d" "timely c d" "m \<in> set (messages d)"
  shows "msg_created_at m \<le> c"
proof -
  from assms(1,3) have "thread_exists (msg_thread_id m) d" by (simp add: no_orphans_def)
  then obtain t where t: "t \<in> set (threads d)" "thr_id t = msg_thread_id m"
    by (auto simp: thread_exists_def)
  with assms(2,3) have "msg_created_at m \<le> thr_updated_at t" "thr_updated_at t \<le> c"
    by (simp_all add: timely_def)
  then show ?thesis by simp
qed

lemma timely_init: "timely 0 init_db"
  by (simp add: timely_def init_db_def)

lemma timely_create:
  assumes w: "wf_rows d" and t: "timely c d" and le: "c \<le> now"
  shows "timely now (handle (CreateThread i ttl now) d)"
proof (cases "thread_exists i d")
  case True
  show ?thesis unfolding create_exists [OF True] by (rule timely_later [OF t le])
next
  case False
  have nom: "m \<in> set (messages d) \<Longrightarrow> msg_thread_id m \<noteq> i" for m
    using w False by (auto simp: wf_rows_def no_orphans_def)
  have old: "timely now d" by (rule timely_later [OF t le])
  show ?thesis
    unfolding create_fresh [OF False]
    using old nom by (auto simp: timely_def)
qed

lemma timely_append:
  assumes w: "wf_rows d" and t: "timely c d" and le: "c \<le> t1" "t1 \<le> t2"
  shows "timely t2 (handle (AppendMessage tid r c' t1 t2) d)"
proof (cases "thread_exists tid d")
  case False
  from le have "c \<le> t2" by simp
  show ?thesis unfolding append_missing [OF False] by (rule timely_later [OF t \<open>c \<le> t2\<close>])
next
  case True
  let ?d' = "handle (AppendMessage tid r c' t1 t2) d"
  let ?row = "\<lparr>msg_id = next_rowid d, msg_thread_id = tid, msg_role = r, msg_content = c',
                msg_created_at = t1\<rparr>"
  note ms = append_existing(1) [OF True, of r c' t1 t2]
  note ts = append_existing(2) [OF True, of r c' t1 t2]
  have no: "no_orphans d" using w by (simp add: wf_rows_def)
  have old: "x \<in> set (threads d) \<Longrightarrow> thr_updated_at x \<le> c" for x
    using t by (simp add: timely_def)
  have oldm: "x \<in> set (threads d) \<Longrightarrow> m \<in> set (messages d) \<Longrightarrow> msg_thread_id m = thr_id x
      \<Longrightarrow> msg_created_at m \<le> thr_updated_at x" for x m
    using t by (simp add: timely_def)
  have src: "x \<in> set (threads ?d') \<Longrightarrow>
      \<exists>x0 \<in> set (threads d). thr_id x = thr_id x0 \<and>
        (if thr_id x0 = tid then thr_updated_at x = t2
         else thr_updated_at x = thr_updated_at x0)" for x
    unfolding ts by auto
  have 1: "\<forall>x \<in> set (threads ?d'). thr_updated_at x \<le> t2"
  proof
    fix x assume "x \<in> set (threads ?d')"
    from src [OF this] obtain x0 where x0: "x0 \<in> set (threads d)"
      and u: "if thr_id x0 = tid then thr_updated_at x = t2
         else thr_updated_at x = thr_updated_at x0" by blast
    from old [OF x0] u le show "thr_updated_at x \<le> t2"
      by (cases "thr_id x0 = tid") simp_all
  qed
  have 2: "\<forall>x \<in> set (threads ?d'). \<forall>m \<in> set (messages ?d').
            msg_thread_id m = thr_id x \<longrightarrow> msg_created_at m \<le> thr_updated_at x"
  proof (intro ballI impI)
    fix x m
    assume x: "x \<in> set (threads ?d')" and m: "m \<in> set (messages ?d')"
      and e: "msg_thread_id m = thr_id x"
    from src [OF x] obtain x0 where x0: "x0 \<in> set (threads d)" and i: "thr_id x = thr_id x0"
      and u: "if thr_id x0 = tid then thr_updated_at x = t2
         else thr_updated_at x = thr_updated_at x0" by blast
    from m have "m \<in> set (messages d) \<or> m = ?row" unfolding ms by auto
    then show "msg_created_at m \<le> thr_updated_at x"
    proof
      assume mo: "m \<in> set (messages d)"
      show ?thesis
      proof (cases "thr_id x0 = tid")
        case True
        with u created_le_clock [OF no t mo] le show ?thesis by simp
      next
        case False
        with u oldm [OF x0 mo] e i show ?thesis by simp
      qed
    next
      assume "m = ?row"
      with e i u le show ?thesis by simp
    qed
  qed
  have 3: "sorted (map msg_created_at (messages ?d'))"
  proof -
    have "\<forall>x \<in> set (map msg_created_at (messages d)). x \<le> t1"
      using created_le_clock [OF no t] le by fastforce
    moreover have "sorted (map msg_created_at (messages d))"
      using t by (simp add: timely_def)
    ultimately show ?thesis unfolding ms by (simp add: sorted_append)
  qed
  show ?thesis unfolding timely_def using 1 2 3 by blast
qed

lemma timely_delete: "timely c d \<Longrightarrow> timely c (handle (DeleteThread i) d)"
proof -
  assume t: "timely c d"
  let ?d' = "delete_from_threads i d"
  have thr: "set (threads ?d') \<subseteq> set (threads d)"
    by (auto simp: delete_from_threads_def)
  have msub: "set (messages ?d') \<subseteq> set (messages d)"
    by (auto simp: delete_from_threads_def)
  have 1: "\<forall>x \<in> set (threads ?d'). thr_updated_at x \<le> c"
    using t thr by (auto simp: timely_def)
  have 2: "\<forall>x \<in> set (threads ?d'). \<forall>m \<in> set (messages ?d').
            msg_thread_id m = thr_id x \<longrightarrow> msg_created_at m \<le> thr_updated_at x"
  proof (intro ballI impI)
    fix x m assume "x \<in> set (threads ?d')" "m \<in> set (messages ?d')" "msg_thread_id m = thr_id x"
    moreover from this msub thr have "x \<in> set (threads d)" "m \<in> set (messages d)" by auto
    ultimately show "msg_created_at m \<le> thr_updated_at x"
      using t by (simp add: timely_def)
  qed
  have 3: "sorted (map msg_created_at (messages ?d'))"
    using t by (simp add: delete_from_threads_def timely_def sorted_wrt_map_filter)
  show ?thesis unfolding delete_state timely_def using 1 2 3 by blast
qed

lemma timely_rename: "timely c d \<Longrightarrow> timely c (handle (RenameThread i ttl) d)"
proof -
  assume t: "timely c d"
  let ?d' = "update_title ttl i d"
  have ms: "messages ?d' = messages d" by (simp add: update_title_def)
  have src: "x \<in> set (threads ?d') \<Longrightarrow>
      \<exists>x0 \<in> set (threads d). thr_id x = thr_id x0 \<and> thr_updated_at x = thr_updated_at x0" for x
    unfolding update_title_def by auto
  have 1: "\<forall>x \<in> set (threads ?d'). thr_updated_at x \<le> c"
    using t src by (fastforce simp: timely_def)
  have 2: "\<forall>x \<in> set (threads ?d'). \<forall>m \<in> set (messages ?d').
            msg_thread_id m = thr_id x \<longrightarrow> msg_created_at m \<le> thr_updated_at x"
  proof (intro ballI impI)
    fix x m assume x: "x \<in> set (threads ?d')" and m: "m \<in> set (messages ?d')"
      and e: "msg_thread_id m = thr_id x"
    from src [OF x] obtain x0 where "x0 \<in> set (threads d)" "thr_id x = thr_id x0"
      "thr_updated_at x = thr_updated_at x0" by blast
    with t m e show "msg_created_at m \<le> thr_updated_at x"
      unfolding ms by (simp add: timely_def)
  qed
  have 3: "sorted (map msg_created_at (messages ?d'))"
    using t unfolding ms by (simp add: timely_def)
  show ?thesis unfolding rename_state timely_def using 1 2 3 by blast
qed

lemma timely_handle:
  assumes w: "wf_rows d" and t: "timely c d" and s: "sorted (c # readings r)"
  shows "timely (last (c # readings r)) (handle r d)"
proof (cases r)
  case (CreateThread i ttl now)
  with s have "c \<le> now" by simp
  from timely_create [OF w t this] show ?thesis unfolding CreateThread by simp
next
  case (ListMessages tid)
  with t show ?thesis by (simp add: handle.simps)
next
  case (AppendMessage tid ro co t1 t2)
  with s have "c \<le> t1" "t1 \<le> t2" by simp_all
  from timely_append [OF w t this] show ?thesis unfolding AppendMessage by simp
next
  case (DeleteThread i)
  from timely_delete [OF t] show ?thesis unfolding DeleteThread by simp
next
  case (RenameThread i ttl)
  from timely_rename [OF t] show ?thesis unfolding RenameThread by simp
qed

lemma sorted_step:
  assumes "sorted (c # xs @ ys)"
  shows "sorted (c # xs)" and "sorted (last (c # xs) # ys)"
proof -
  from assms have a: "sorted ((c # xs) @ ys)" by simp
  then show "sorted (c # xs)" unfolding sorted_append by blast
  from a have "\<forall>x \<in> set (c # xs). \<forall>y \<in> set ys. x \<le> y" and "sorted ys"
    unfolding sorted_append by blast+
  moreover have "last (c # xs) \<in> set (c # xs)" by (rule last_in_set) simp
  ultimately show "sorted (last (c # xs) # ys)" by auto
qed

lemma timely_run:
  "wf_rows d \<Longrightarrow> timely c d \<Longrightarrow> sorted (c # all_readings rs)
     \<Longrightarrow> timely (last (c # all_readings rs)) (run d rs)"
proof (induction rs arbitrary: c d)
  case Nil
  then show ?case by (simp add: all_readings_def)
next
  case (Cons r rs)
  have ar: "all_readings (r # rs) = readings r @ all_readings rs"
    by (simp add: all_readings_def)
  from Cons.prems(3) have s: "sorted (c # readings r @ all_readings rs)" unfolding ar .
  note s1 = sorted_step(1) [OF s] and s2 = sorted_step(2) [OF s]
  have l: "last (c # all_readings (r # rs)) = last (last (c # readings r) # all_readings rs)"
    unfolding ar by (cases "all_readings rs = []") simp_all
  from Cons.IH [OF wf_rows_handle [OF Cons.prems(1)] timely_handle [OF Cons.prems(1,2) s1] s2]
  show ?case unfolding l by simp
qed

lemma timely_reachable:
  assumes "sorted (all_readings rs)"
  shows "timely (last (0 # all_readings rs)) (run init_db rs)"
proof -
  from assms have "sorted (0 # all_readings rs)" by simp
  from timely_run [OF wf_rows_init timely_init this] show ?thesis .
qed

lemma filter_thr_id_absent:
  "\<not> thread_exists i d \<Longrightarrow> filter (\<lambda>t. thr_id t \<noteq> i) (threads d) = threads d"
  by (auto simp: thread_exists_def filter_id_conv)

lemma thread_gone_after_delete: "\<not> thread_exists i (delete_from_threads i d)"
  by (auto simp: thread_exists_def delete_from_threads_def)

lemma update_title_absent: "\<not> thread_exists i d \<Longrightarrow> update_title ttl i d = d"
proof -
  assume "\<not> thread_exists i d"
  then have "map (\<lambda>t. if thr_id t = i then t\<lparr>thr_title := ttl\<rparr> else t) (threads d) = threads d"
    by (intro map_idI) (auto simp: thread_exists_def)
  then show ?thesis by (simp add: update_title_def)
qed

lemma map_title_set:
  assumes "t \<in> set (map (\<lambda>t. if thr_id t = i then t\<lparr>thr_title := ttl\<rparr> else t) ts)" "thr_id t = i"
  shows "thr_title t = ttl"
proof -
  from assms(1) have "t \<in> (\<lambda>t. if thr_id t = i then t\<lparr>thr_title := ttl\<rparr> else t) ` set ts"
    by (simp only: set_map)
  then obtain t0 where "t = (if thr_id t0 = i then t0\<lparr>thr_title := ttl\<rparr> else t0)"
    by (rule imageE)
  with assms(2) show ?thesis by (cases "thr_id t0 = i") simp_all
qed

lemma map_title_twice:
  "map (\<lambda>t. if thr_id t = i then t\<lparr>thr_title := ttl\<rparr> else t)
     (map (\<lambda>t. if thr_id t = i then t\<lparr>thr_title := ttl\<rparr> else t) ts)
   = map (\<lambda>t. if thr_id t = i then t\<lparr>thr_title := ttl\<rparr> else t) ts"
  by (induction ts) auto

lemma update_title_twice: "update_title ttl i (update_title ttl i d) = update_title ttl i d"
  by (simp add: update_title_def map_title_twice)

section \<open>Deleting a thread that is not there\<close>

text \<open>
  Claim C10. \<open>deleteThread\<close> on an id for which no thread exists answers with success
  and leaves the whole database, threads and messages, as it was. Deleting is
  idempotent: the database left by one delete is left unchanged, again with success,
  by a second delete of the same id.
\<close>

theorem deleteThread_absent_noop:
  "(\<not> thread_exists i d \<longrightarrow> deleteThread i d = Inr d)
   \<and> (\<exists>d1. deleteThread i d = Inr d1 \<and> deleteThread i d1 = Inr d1)"
proof
  show "\<not> thread_exists i d \<longrightarrow> deleteThread i d = Inr d"
    by (simp add: deleteThread_def delete_from_threads_def filter_thr_id_absent)
next
  let ?d1 = "delete_from_threads i d"
  have "delete_from_threads i ?d1 = ?d1"
    using thread_gone_after_delete [of i d]
    by (simp add: delete_from_threads_def [of i ?d1] filter_thr_id_absent)
  then show "\<exists>d1. deleteThread i d = Inr d1 \<and> deleteThread i d1 = Inr d1"
    by (simp add: deleteThread_def)
qed

theorem deleteThread_absent_noop_witness:
  "\<not> thread_exists ''T9''
       (run init_db [CreateThread ''T1'' ''Test'' 1, AppendMessage ''T1'' ''user'' ''Hello'' 3 3])
   \<and> deleteThread ''T9''
       (run init_db [CreateThread ''T1'' ''Test'' 1, AppendMessage ''T1'' ''user'' ''Hello'' 3 3])
     = Inr \<lparr>threads = [\<lparr>thr_id = ''T1'', thr_title = ''Test'', thr_created_at = 1, thr_updated_at = 3\<rparr>],
            messages = [\<lparr>msg_id = 1, msg_thread_id = ''T1'', msg_role = ''user'',
                         msg_content = ''Hello'', msg_created_at = 3\<rparr>],
            sqlite_sequence = 1\<rparr>"
  using deleteThread_absent_noop [of "''T9''"
      "run init_db [CreateThread ''T1'' ''Test'' 1, AppendMessage ''T1'' ''user'' ''Hello'' 3 3]"]
  by (simp add: handler_defs)

section \<open>Appending to a thread that is not there\<close>

text \<open>
  Claim C3. For every thread id that does not exist in the store, \<open>appendMessage\<close>
  fails: the insert is refused with the foreign-key error of the schema, which is how
  this store reports that the referenced thread was not found. The request leaves the
  database exactly as it was, so no message row is persisted anywhere.
\<close>

theorem appendMessage_missing_thread:
  "\<not> thread_exists tid d \<Longrightarrow>
     appendMessage t1 t2 tid r c d = Inl SQLITE_CONSTRAINT_FOREIGNKEY
     \<and> handle (AppendMessage tid r c t1' t2') d = d"
  by (simp add: handle.simps appendMessage_def insert_message_def commit_def)

theorem appendMessage_missing_thread_witness:
  "\<not> thread_exists ''T9'' (run init_db [CreateThread ''T1'' ''Test'' 1])
   \<and> appendMessage 5 5 ''T9'' ''user'' ''Hello'' (run init_db [CreateThread ''T1'' ''Test'' 1])
       = Inl SQLITE_CONSTRAINT_FOREIGNKEY
   \<and> handle (AppendMessage ''T9'' ''user'' ''Hello'' 5 5) (run init_db [CreateThread ''T1'' ''Test'' 1])
       = \<lparr>threads = [\<lparr>thr_id = ''T1'', thr_title = ''Test'', thr_created_at = 1, thr_updated_at = 1\<rparr>],
          messages = [], sqlite_sequence = 0\<rparr>"
  using appendMessage_missing_thread [of "''T9''" "run init_db [CreateThread ''T1'' ''Test'' 1]"
      5 5 "''user''" "''Hello''" 5 5]
  by (simp add: handler_defs)

section \<open>Deleting a thread deletes its messages\<close>

text \<open>
  Claim C1. In every state the server can reach from the empty database, whatever the
  clock readings, no message is an orphan: the thread its \<open>thread_id\<close> names exists.
  After \<open>deleteThread\<close> on any id, no message row with that \<open>thread_id\<close> remains, and
  again no message is an orphan.
\<close>

theorem delete_leaves_no_message:
  "no_orphans (run init_db rs)
   \<and> (\<forall>m \<in> set (messages (handle (DeleteThread i) (run init_db rs))). msg_thread_id m \<noteq> i)
   \<and> no_orphans (handle (DeleteThread i) (run init_db rs))"
proof -
  let ?d = "run init_db rs"
  have w: "wf_rows ?d" by (rule wf_rows_reachable)
  then have 1: "no_orphans ?d" by (simp add: wf_rows_def)
  have 2: "\<forall>m \<in> set (messages (handle (DeleteThread i) ?d)). msg_thread_id m \<noteq> i"
    unfolding delete_state using messages_after_delete [OF 1] by blast
  have "wf_rows (handle (DeleteThread i) ?d)" by (rule wf_rows_delete [OF w])
  then have 3: "no_orphans (handle (DeleteThread i) ?d)" by (simp add: wf_rows_def)
  from 1 2 3 show ?thesis by blast
qed

theorem delete_leaves_no_message_witness:
  "run init_db
       [CreateThread ''T3'' ''Third'' 1, AppendMessage ''T3'' ''user'' ''a'' 2 2,
        CreateThread ''T1'' ''Test'' 2, AppendMessage ''T3'' ''model'' ''b'' 2 3,
        AppendMessage ''T1'' ''user'' ''Hello'' 5 5]
   = \<lparr>threads = [\<lparr>thr_id = ''T3'', thr_title = ''Third'', thr_created_at = 1, thr_updated_at = 3\<rparr>,
                 \<lparr>thr_id = ''T1'', thr_title = ''Test'', thr_created_at = 2, thr_updated_at = 5\<rparr>],
      messages = [\<lparr>msg_id = 1, msg_thread_id = ''T3'', msg_role = ''user'', msg_content = ''a'', msg_created_at = 2\<rparr>,
                  \<lparr>msg_id = 2, msg_thread_id = ''T3'', msg_role = ''model'', msg_content = ''b'', msg_created_at = 2\<rparr>,
                  \<lparr>msg_id = 3, msg_thread_id = ''T1'', msg_role = ''user'', msg_content = ''Hello'', msg_created_at = 5\<rparr>],
      sqlite_sequence = 3\<rparr>
   \<and> messages (handle (DeleteThread ''T3'') (run init_db
       [CreateThread ''T3'' ''Third'' 1, AppendMessage ''T3'' ''user'' ''a'' 2 2,
        CreateThread ''T1'' ''Test'' 2, AppendMessage ''T3'' ''model'' ''b'' 2 3,
        AppendMessage ''T1'' ''user'' ''Hello'' 5 5]))
     = [\<lparr>msg_id = 3, msg_thread_id = ''T1'', msg_role = ''user'', msg_content = ''Hello'', msg_created_at = 5\<rparr>]
   \<and> no_orphans (handle (DeleteThread ''T3'') (run init_db
       [CreateThread ''T3'' ''Third'' 1, AppendMessage ''T3'' ''user'' ''a'' 2 2,
        CreateThread ''T1'' ''Test'' 2, AppendMessage ''T3'' ''model'' ''b'' 2 3,
        AppendMessage ''T1'' ''user'' ''Hello'' 5 5]))"
  using delete_leaves_no_message [of
       "[CreateThread ''T3'' ''Third'' 1, AppendMessage ''T3'' ''user'' ''a'' 2 2,
        CreateThread ''T1'' ''Test'' 2, AppendMessage ''T3'' ''model'' ''b'' 2 3,
        AppendMessage ''T1'' ''user'' ''Hello'' 5 5]" "''T3''"]
  by (simp add: handler_defs no_orphans_def)

section \<open>Listing the messages of a thread\<close>

text \<open>
  Claim C9, as stated, asks \<open>listMessages\<close> to fail with NotFound when the thread does
  not exist, in particular after it was deleted. The handler runs the \<open>SELECT\<close>
  without looking at the table \<open>threads\<close>: for the id of a deleted thread it answers
  with the empty list.
\<close>

theorem listMessages_deleted_counterexample:
  "listMessages ''T3'' (run init_db
      [CreateThread ''T3'' ''Third'' 1, AppendMessage ''T3'' ''user'' ''Hello'' 2 2, DeleteThread ''T3''])
   = Inr []"
  by (simp add: handler_defs)

text \<open>
  Claim C9, amended. \<open>listMessages\<close> never fails. In every reachable state it returns
  exactly the message rows whose \<open>thread_id\<close> is the given id, each once, in the order
  of \<open>created_at\<close>. So it returns the empty sequence for a thread without messages,
  and also for an id that names no thread; after \<open>deleteThread\<close> on an id it returns
  the empty sequence for that id.
\<close>

theorem listMessages_total:
  "\<exists>rows. listMessages tid (run init_db rs) = Inr rows
     \<and> mset rows = mset (filter (\<lambda>m. msg_thread_id m = tid) (messages (run init_db rs)))
     \<and> sorted (map msg_created_at rows)
     \<and> ((\<forall>m \<in> set (messages (run init_db rs)). msg_thread_id m \<noteq> tid) \<longrightarrow> rows = [])
     \<and> (\<not> thread_exists tid (run init_db rs) \<longrightarrow> rows = [])
     \<and> listMessages tid (handle (DeleteThread tid) (run init_db rs)) = Inr []"
proof -
  let ?d = "run init_db rs"
  let ?P = "\<lambda>m. msg_thread_id m = tid"
  have w: "wf_rows ?d" by (rule wf_rows_reachable)
  have no: "no_orphans ?d" using w by (simp add: wf_rows_def)
  have m: "mset (select_messages tid ?d) = mset (filter ?P (messages ?d))"
    by (simp add: select_messages_def)
  have s: "sorted (map msg_created_at (select_messages tid ?d))"
    by (simp add: select_messages_def)
  have a: "(\<forall>m \<in> set (messages ?d). msg_thread_id m \<noteq> tid) \<longrightarrow> select_messages tid ?d = []"
    by (simp add: select_messages_def filter_empty_conv)
  have "\<not> thread_exists tid ?d \<longrightarrow> filter ?P (messages ?d) = []"
    using no by (auto simp: filter_empty_conv no_orphans_def)
  then have b: "\<not> thread_exists tid ?d \<longrightarrow> select_messages tid ?d = []"
    by (simp add: select_messages_def)
  have "filter ?P (messages (delete_from_threads tid ?d)) = []"
    using messages_after_delete [OF no, of _ tid] by (auto simp: filter_empty_conv)
  then have c: "select_messages tid (handle (DeleteThread tid) ?d) = []"
    unfolding delete_state by (simp add: select_messages_def)
  show ?thesis using m s a b c by (simp add: listMessages_def)
qed

theorem listMessages_total_witness:
  "listMessages ''T1'' (run init_db
        [CreateThread ''T1'' ''Test'' 1, CreateThread ''T2'' ''Other'' 1,
         AppendMessage ''T1'' ''user'' ''Hello'' 2 2, AppendMessage ''T2'' ''user'' ''Hey'' 2 2,
         AppendMessage ''T1'' ''model'' ''Hi there'' 3 3])
     = Inr [\<lparr>msg_id = 1, msg_thread_id = ''T1'', msg_role = ''user'', msg_content = ''Hello'',
              msg_created_at = 2\<rparr>,
            \<lparr>msg_id = 3, msg_thread_id = ''T1'', msg_role = ''model'', msg_content = ''Hi there'',
              msg_created_at = 3\<rparr>]
   \<and> \<not> thread_exists ''T3'' (run init_db
        [CreateThread ''T1'' ''Test'' 1, CreateThread ''T2'' ''Other'' 1,
         AppendMessage ''T1'' ''user'' ''Hello'' 2 2, AppendMessage ''T2'' ''user'' ''Hey'' 2 2,
         AppendMessage ''T1'' ''model'' ''Hi there'' 3 3])
   \<and> listMessages ''T3'' (run init_db
        [CreateThread ''T1'' ''Test'' 1, CreateThread ''T2'' ''Other'' 1,
         AppendMessage ''T1'' ''user'' ''Hello'' 2 2, AppendMessage ''T2'' ''user'' ''Hey'' 2 2,
         AppendMessage ''T1'' ''model'' ''Hi there'' 3 3]) = Inr []
   \<and> listMessages ''T1'' (handle (DeleteThread ''T1'') (run init_db
        [CreateThread ''T1'' ''Test'' 1, CreateThread ''T2'' ''Other'' 1,
         AppendMessage ''T1'' ''user'' ''Hello'' 2 2, AppendMessage ''T2'' ''user'' ''Hey'' 2 2,
         AppendMessage ''T1'' ''model'' ''Hi there'' 3 3])) = Inr []"
  using listMessages_total [of "''T3''"
        "[CreateThread ''T1'' ''Test'' 1, CreateThread ''T2'' ''Other'' 1,
         AppendMessage ''T1'' ''user'' ''Hello'' 2 2, AppendMessage ''T2'' ''user'' ''Hey'' 2 2,
         AppendMessage ''T1'' ''model'' ''Hi there'' 3 3]"]
    listMessages_total [of "''T1''"
        "[CreateThread ''T1'' ''Test'' 1, CreateThread ''T2'' ''Other'' 1,
         AppendMessage ''T1'' ''user'' ''Hello'' 2 2, AppendMessage ''T2'' ''user'' ''Hey'' 2 2,
         AppendMessage ''T1'' ''model'' ''Hi there'' 3 3]"]
  by (simp add: handler_defs)

section \<open>Renaming a thread\<close>

text \<open>
  Claim C7, as stated, asks \<open>renameThread\<close> to refuse a title that is empty after
  trimming and to fail on an id without thread. The handler runs the \<open>UPDATE\<close> on
  whatever it is given and answers with success: the empty title is stored, and the
  rename of an absent id succeeds and changes nothing.
\<close>

theorem renameThread_counterexample:
  "renameThread ''T1'' '''' (run init_db [CreateThread ''T1'' ''Test'' 1])
     = Inr \<lparr>threads = [\<lparr>thr_id = ''T1'', thr_title = '''', thr_created_at = 1, thr_updated_at = 1\<rparr>],
            messages = [], sqlite_sequence = 0\<rparr>
   \<and> renameThread ''T9'' ''Name'' (run init_db [CreateThread ''T1'' ''Test'' 1])
     = Inr \<lparr>threads = [\<lparr>thr_id = ''T1'', thr_title = ''Test'', thr_created_at = 1, thr_updated_at = 1\<rparr>],
            messages = [], sqlite_sequence = 0\<rparr>"
  by (simp add: handler_defs)

text \<open>
  Claim C7, amended. \<open>renameThread\<close> validates nothing and always answers with
  success: messages and thread ids stay as they are, every thread with the given id
  carries the given title afterwards (whatever the title), a database without such a
  thread is left unchanged, and renaming is idempotent, a second identical rename
  leaving the database of the first.
\<close>

theorem renameThread_unchecked:
  "\<exists>d'. renameThread i ttl d = Inr d'
     \<and> messages d' = messages d
     \<and> map thr_id (threads d') = map thr_id (threads d)
     \<and> (\<forall>t \<in> set (threads d'). thr_id t = i \<longrightarrow> thr_title t = ttl)
     \<and> (\<not> thread_exists i d \<longrightarrow> d' = d)
     \<and> renameThread i ttl d' = Inr d'"
proof -
  let ?d' = "update_title ttl i d"
  have 1: "messages ?d' = messages d" by (simp add: update_title_def)
  have 2: "map thr_id (threads ?d') = map thr_id (threads d)"
    by (simp add: update_title_def map_title_ids)
  have 3: "\<forall>t \<in> set (threads ?d'). thr_id t = i \<longrightarrow> thr_title t = ttl"
  proof (intro ballI impI)
    fix t assume m: "t \<in> set (threads ?d')" and e: "thr_id t = i"
    have "threads ?d' = map (\<lambda>t. if thr_id t = i then t\<lparr>thr_title := ttl\<rparr> else t) (threads d)"
      by (simp add: update_title_def)
    with m have "t \<in> set (map (\<lambda>t. if thr_id t = i then t\<lparr>thr_title := ttl\<rparr> else t) (threads d))"
      by (simp only:)
    from map_title_set [OF this e] show "thr_title t = ttl" .
  qed
  have 4: "\<not> thread_exists i d \<longrightarrow> ?d' = d"
    by (simp add: update_title_absent)
  have 5: "renameThread i ttl ?d' = Inr ?d'"
    by (simp add: renameThread_def update_title_twice)
  from 1 2 3 4 5 show ?thesis by (simp add: renameThread_def)
qed

theorem renameThread_unchecked_witness:
  "renameThread ''T1'' ''Renamed'' (run init_db [CreateThread ''T1'' ''Test'' 1, CreateThread ''T2'' ''Other'' 2])
     = Inr \<lparr>threads = [\<lparr>thr_id = ''T1'', thr_title = ''Renamed'', thr_created_at = 1, thr_updated_at = 1\<rparr>,
                       \<lparr>thr_id = ''T2'', thr_title = ''Other'', thr_created_at = 2, thr_updated_at = 2\<rparr>],
            messages = [], sqlite_sequence = 0\<rparr>
   \<and> \<not> thread_exists ''T9'' (run init_db [CreateThread ''T1'' ''Test'' 1, CreateThread ''T2'' ''Other'' 2])
   \<and> renameThread ''T9'' ''Renamed'' (run init_db [CreateThread ''T1'' ''Test'' 1, CreateThread ''T2'' ''Other'' 2])
     = Inr (run init_db [CreateThread ''T1'' ''Test'' 1, CreateThread ''T2'' ''Other'' 2])"
  using renameThread_unchecked [of "''T1''" "''Renamed''"
      "run init_db [CreateThread ''T1'' ''Test'' 1, CreateThread ''T2'' ''Other'' 2]"]
    renameThread_unchecked [of "''T9''" "''Renamed''"
      "run init_db [CreateThread ''T1'' ''Test'' 1, CreateThread ''T2'' ''Other'' 2]"]
  by (simp add: handler_defs)

section \<open>The role of a message\<close>

text \<open>
  Claim C8, as stated, asks the store to refuse every role other than \<open>user\<close> and
  \<open>model\<close>. The column \<open>role\<close> is unconstrained text and the handler passes the value
  of the request body on: a message with role \<open>system\<close> is accepted and stored.
\<close>

theorem appendMessage_role_counterexample:
  "appendMessage 3 3 ''T1'' ''system'' ''hi'' (run init_db [CreateThread ''T1'' ''Test'' 1])
     = Inr \<lparr>threads = [\<lparr>thr_id = ''T1'', thr_title = ''Test'', thr_created_at = 1, thr_updated_at = 3\<rparr>],
            messages = [\<lparr>msg_id = 1, msg_thread_id = ''T1'', msg_role = ''system'', msg_content = ''hi'',
                         msg_created_at = 3\<rparr>],
            sqlite_sequence = 1\<rparr>"
  by (simp add: handler_defs)

text \<open>
  Claim C8, amended. On an existing thread \<open>appendMessage\<close> accepts every role value
  and stores it unchanged in the new row, which is the only row added. The two-valued
  tag exists in the type \<open>Message\<close> of the chat component only.
\<close>

theorem appendMessage_any_role:
  "thread_exists tid d \<Longrightarrow>
     \<exists>d'. appendMessage t1 t2 tid r c d = Inr d'
       \<and> messages d' = messages d @
            [\<lparr>msg_id = next_rowid d, msg_thread_id = tid, msg_role = r, msg_content = c,
              msg_created_at = t1\<rparr>]"
  by (simp add: appendMessage_def insert_message_def update_updated_at_def Let_def)

theorem appendMessage_any_role_witness:
  "thread_exists ''T1'' (run init_db [CreateThread ''T1'' ''Test'' 1])
   \<and> (\<exists>d'. appendMessage 3 3 ''T1'' ''tool'' ''hi'' (run init_db [CreateThread ''T1'' ''Test'' 1]) = Inr d'
        \<and> messages d' = [\<lparr>msg_id = 1, msg_thread_id = ''T1'', msg_role = ''tool'', msg_content = ''hi'',
              msg_created_at = 3\<rparr>])"
  using appendMessage_any_role [of "''T1''" "run init_db [CreateThread ''T1'' ''Test'' 1]" 3 3 "''tool''" "''hi''"]
  by (simp add: handler_defs)

section \<open>The recency marker of a thread\<close>








section \<open>The order of the messages of a thread\<close>

lemma insort_created_then_id:
  "sorted_wrt created_then_id ys \<Longrightarrow> \<forall>y \<in> set ys. msg_id x < msg_id y
     \<Longrightarrow> sorted_wrt created_then_id (insort_key msg_created_at x ys)"
proof (induction ys)
  case Nil
  then show ?case by simp
next
  case (Cons y ys)
  show ?case
  proof (cases "msg_created_at x \<le> msg_created_at y")
    case True
    have "created_then_id x z" if "z \<in> set (y # ys)" for z
    proof -
      from that Cons.prems(2) have i: "msg_id x < msg_id z" by auto
      have "msg_created_at y \<le> msg_created_at z"
        using that Cons.prems(1) by (auto simp: created_then_id_def)
      with True i show ?thesis by (auto simp: created_then_id_def)
    qed
    with True Cons.prems(1) show ?thesis by simp
  next
    case False
    have 1: "sorted_wrt created_then_id (insort_key msg_created_at x ys)"
      using Cons by simp
    have "created_then_id y w" if "w \<in> set (insort_key msg_created_at x ys)" for w
    proof -
      from that have "w = x \<or> w \<in> set ys" by (simp add: set_insort_key)
      then show ?thesis
      proof
        assume "w = x"
        with False show ?thesis by (simp add: created_then_id_def)
      next
        assume "w \<in> set ys"
        with Cons.prems(1) show ?thesis by simp
      qed
    qed
    with False 1 show ?thesis by simp
  qed
qed

lemma sort_created_then_id:
  "sorted_wrt (<) (map msg_id xs) \<Longrightarrow> sorted_wrt created_then_id (sort_key msg_created_at xs)"
proof (induction xs)
  case Nil
  then show ?case by simp
next
  case (Cons x xs)
  then have "sorted_wrt created_then_id (sort_key msg_created_at xs)" by simp
  moreover from Cons.prems have "\<forall>y \<in> set (sort_key msg_created_at xs). msg_id x < msg_id y"
    by simp
  ultimately show ?case by (simp add: insort_created_then_id)
qed

lemma run_append: "run d (rs @ rs') = run (run d rs) rs'"
  by (induction rs arbitrary: d) simp_all

lemma run_appends:
  "thread_exists tid d \<Longrightarrow>
     \<exists>new. messages (run d (appends tid ps)) = messages d @ new
       \<and> (\<forall>m \<in> set new. msg_thread_id m = tid)
       \<and> map (\<lambda>m. (msg_thread_id m, msg_role m, msg_content m)) new
           = map (\<lambda>(r, c, t1, t2). (tid, r, c)) ps"
proof (induction ps arbitrary: d)
  case Nil
  then show ?case by (simp add: appends_def)
next
  case (Cons p ps)
  obtain r c t1 t2 where p: "p = (r, c, t1, t2)" by (cases p) auto
  let ?d1 = "handle (AppendMessage tid r c t1 t2) d"
  let ?row = "\<lparr>msg_id = next_rowid d, msg_thread_id = tid, msg_role = r, msg_content = c,
                msg_created_at = t1\<rparr>"
  note ms = append_existing(1) [OF Cons.prems, of r c t1 t2]
  note ex = append_existing(3) [OF Cons.prems, of r c t1 t2]
  from Cons.IH [OF ex] obtain new where
    n1: "messages (run ?d1 (appends tid ps)) = messages ?d1 @ new"
    and n2: "\<forall>m \<in> set new. msg_thread_id m = tid"
    and n3: "map (\<lambda>m. (msg_thread_id m, msg_role m, msg_content m)) new
           = map (\<lambda>(r, c, t1, t2). (tid, r, c)) ps"
    by blast
  have "run d (appends tid (p # ps)) = run ?d1 (appends tid ps)"
    by (simp add: appends_def p)
  with n1 ms have "messages (run d (appends tid (p # ps))) = messages d @ (?row # new)"
    by simp
  moreover have "\<forall>m \<in> set (?row # new). msg_thread_id m = tid"
    using n2 by simp
  moreover have "map (\<lambda>m. (msg_thread_id m, msg_role m, msg_content m)) (?row # new)
           = map (\<lambda>(r, c, t1, t2). (tid, r, c)) (p # ps)"
    using n3 by (simp add: p)
  ultimately show ?case by blast
qed

text \<open>
  Claim C4, as stated, takes any sequence of \<open>appendMessage\<close> calls. The query sorts on
  \<open>created_at\<close>, a reading of the wall clock, and on nothing else: two appends of which
  the second reads an earlier time than the first are listed in the reverse of call
  order, with decreasing ids.
\<close>

theorem listMessages_order_counterexample:
  "listMessages ''T1'' (run init_db
      [CreateThread ''T1'' ''Test'' 1, AppendMessage ''T1'' ''user'' ''first'' 5 5,
       AppendMessage ''T1'' ''user'' ''second'' 3 3])
   = Inr [\<lparr>msg_id = 2, msg_thread_id = ''T1'', msg_role = ''user'', msg_content = ''second'',
            msg_created_at = 3\<rparr>,
          \<lparr>msg_id = 1, msg_thread_id = ''T1'', msg_role = ''user'', msg_content = ''first'',
            msg_created_at = 5\<rparr>]"
  by (simp add: handler_defs)

text \<open>
  Claim C4, amended. In every reachable state \<open>listMessages\<close> returns exactly the rows
  of the thread, each once, in the order of \<open>created_at\<close>, rows with equal \<open>created_at\<close>
  in the order of their ids. For every sequence of \<open>appendMessage\<close> calls on an
  existing thread, served one after the other in a history whose clock readings never
  decrease, \<open>listMessages\<close> then returns the rows the thread had, followed by exactly
  the appended messages in call order, with their roles and contents, and the \<open>id\<close>s of
  the returned rows are strictly increasing.
\<close>

theorem listMessages_call_order:
  "(\<exists>rows. listMessages tid (run init_db rs) = Inr rows
      \<and> mset rows = mset (filter (\<lambda>m. msg_thread_id m = tid) (messages (run init_db rs)))
      \<and> sorted_wrt created_then_id rows)
   \<and> (sorted (all_readings (rs @ appends tid ps)) \<and> thread_exists tid (run init_db rs) \<longrightarrow>
        (\<exists>new. listMessages tid (run (run init_db rs) (appends tid ps))
                 = Inr (filter (\<lambda>m. msg_thread_id m = tid) (messages (run init_db rs)) @ new)
           \<and> map (\<lambda>m. (msg_thread_id m, msg_role m, msg_content m)) new
               = map (\<lambda>(r, c, t1, t2). (tid, r, c)) ps
           \<and> sorted_wrt (<) (map msg_id
               (filter (\<lambda>m. msg_thread_id m = tid) (messages (run init_db rs)) @ new))))"
proof (intro conjI impI)
  let ?d = "run init_db rs"
  let ?P = "\<lambda>m. msg_thread_id m = tid"
  have w: "wf_rows ?d" by (rule wf_rows_reachable)
  have "sorted_wrt (<) (map msg_id (filter ?P (messages ?d)))"
    using w by (simp add: wf_rows_def sorted_wrt_map_filter)
  then have "sorted_wrt created_then_id (select_messages tid ?d)"
    unfolding select_messages_def by (rule sort_created_then_id)
  moreover have "mset (select_messages tid ?d) = mset (filter ?P (messages ?d))"
    by (simp add: select_messages_def)
  ultimately show "\<exists>rows. listMessages tid ?d = Inr rows
      \<and> mset rows = mset (filter ?P (messages ?d))
      \<and> sorted_wrt created_then_id rows"
    by (simp add: listMessages_def)
next
  let ?d = "run init_db rs"
  let ?d' = "run ?d (appends tid ps)"
  let ?P = "\<lambda>m. msg_thread_id m = tid"
  assume a: "sorted (all_readings (rs @ appends tid ps)) \<and> thread_exists tid ?d"
  then have s: "sorted (all_readings (rs @ appends tid ps))" and ex: "thread_exists tid ?d"
    by simp_all
  have d': "?d' = run init_db (rs @ appends tid ps)" by (simp add: run_append)
  have w': "wf_rows ?d'" unfolding d' by (rule wf_rows_reachable)
  have "timely (last (0 # all_readings (rs @ appends tid ps))) ?d'"
    unfolding d' by (rule timely_reachable [OF s])
  then have "sorted (map msg_created_at (messages ?d'))" by (simp add: timely_def)
  then have "sorted (map msg_created_at (filter ?P (messages ?d')))"
    by (rule sorted_wrt_map_filter)
  then have sel: "select_messages tid ?d' = filter ?P (messages ?d')"
    unfolding select_messages_def by (rule sort_key_id_if_sorted)
  from run_appends [OF ex, of ps] obtain new where
    n1: "messages ?d' = messages ?d @ new"
    and n0: "\<forall>m \<in> set new. msg_thread_id m = tid"
    and n2: "map (\<lambda>m. (msg_thread_id m, msg_role m, msg_content m)) new
           = map (\<lambda>(r, c, t1, t2). (tid, r, c)) ps" by blast
  from n0 have fnew: "filter ?P new = new" by simp
  have 1: "listMessages tid ?d' = Inr (filter ?P (messages ?d) @ new)"
    unfolding listMessages_def sel n1 by (simp add: fnew)
  have "sorted_wrt (<) (map msg_id (filter ?P (messages ?d')))"
    using w' by (simp add: wf_rows_def sorted_wrt_map_filter)
  then have 2: "sorted_wrt (<) (map msg_id (filter ?P (messages ?d) @ new))"
    unfolding n1 by (simp add: fnew)
  from 1 n2 2 show "\<exists>new. listMessages tid ?d' = Inr (filter ?P (messages ?d) @ new)
           \<and> map (\<lambda>m. (msg_thread_id m, msg_role m, msg_content m)) new
               = map (\<lambda>(r, c, t1, t2). (tid, r, c)) ps
           \<and> sorted_wrt (<) (map msg_id (filter ?P (messages ?d) @ new))"
    by blast
qed

theorem listMessages_call_order_witness:
  "sorted (all_readings
      ([CreateThread ''T1'' ''Test'' 1, CreateThread ''T2'' ''Other'' 1,
        AppendMessage ''T1'' ''user'' ''Hello'' 2 2, AppendMessage ''T2'' ''user'' ''Hey'' 2 2]
       @ appends ''T1'' [(''model'', ''Hi there'', 2, 2), (''user'', ''Bye'', 2, 3)]))
   \<and> thread_exists ''T1'' (run init_db
       [CreateThread ''T1'' ''Test'' 1, CreateThread ''T2'' ''Other'' 1,
        AppendMessage ''T1'' ''user'' ''Hello'' 2 2, AppendMessage ''T2'' ''user'' ''Hey'' 2 2])
   \<and> listMessages ''T1'' (run (run init_db
       [CreateThread ''T1'' ''Test'' 1, CreateThread ''T2'' ''Other'' 1,
        AppendMessage ''T1'' ''user'' ''Hello'' 2 2, AppendMessage ''T2'' ''user'' ''Hey'' 2 2])
       (appends ''T1'' [(''model'', ''Hi there'', 2, 2), (''user'', ''Bye'', 2, 3)]))
     = Inr [\<lparr>msg_id = 1, msg_thread_id = ''T1'', msg_role = ''user'', msg_content = ''Hello'',
              msg_created_at = 2\<rparr>,
            \<lparr>msg_id = 3, msg_thread_id = ''T1'', msg_role = ''model'', msg_content = ''Hi there'',
              msg_created_at = 2\<rparr>,
            \<lparr>msg_id = 4, msg_thread_id = ''T1'', msg_role = ''user'', msg_content = ''Bye'',
              msg_created_at = 2\<rparr>]"
proof -
  have h1: "sorted (all_readings
      ([CreateThread ''T1'' ''Test'' 1, CreateThread ''T2'' ''Other'' 1,
        AppendMessage ''T1'' ''user'' ''Hello'' 2 2, AppendMessage ''T2'' ''user'' ''Hey'' 2 2]
       @ appends ''T1'' [(''model'', ''Hi there'', 2, 2), (''user'', ''Bye'', 2, 3)]))"
    by (simp add: all_readings_def appends_def)
  have h2: "thread_exists ''T1'' (run init_db
       [CreateThread ''T1'' ''Test'' 1, CreateThread ''T2'' ''Other'' 1,
        AppendMessage ''T1'' ''user'' ''Hello'' 2 2, AppendMessage ''T2'' ''user'' ''Hey'' 2 2])"
    by (simp add: handler_defs)
  note order = listMessages_call_order [of "''T1''"
       "[CreateThread ''T1'' ''Test'' 1, CreateThread ''T2'' ''Other'' 1,
        AppendMessage ''T1'' ''user'' ''Hello'' 2 2, AppendMessage ''T2'' ''user'' ''Hey'' 2 2]"
       "[(''model'', ''Hi there'', 2, 2), (''user'', ''Bye'', 2, 3)]", THEN conjunct2, rule_format,
       OF conjI [OF h1 h2]]
  have r: ?thesis
    using h1 h2 by (simp add: handler_defs appends_def)
  from order show ?thesis by - (rule r)
qed

section \<open>One turn of the chat component\<close>

lemmas turn_defs = handleSendMessage_def contents_def trim_def is_white_space_def Let_def

lemma serve_chats: "serve POST [''api'', ''chats''] b ts d = d"
  by (cases ts) (simp add: serve_def)

lemma serve_chats_messages: "serve POST [''api'', ''chats'', c, ''messages''] b ts d = d"
  by (cases ts) (simp add: serve_def)

lemma component_writes_nothing: "snd (handleSendMessage e (cl, d)) = d"
  by (cases "currentChatId cl";
      cases "generateContent e (contents (messages_state cl) \<lparr>ident = None, role = User, content = input cl\<rparr>)")
     (simp_all add: handleSendMessage_def Let_def serve_chats serve_chats_messages)

lemma T2_db_eval:
  "T2_db =
     \<lparr>threads = [\<lparr>thr_id = ''T2'', thr_title = ''Second'', thr_created_at = 1, thr_updated_at = 3\<rparr>],
      messages = [\<lparr>msg_id = 1, msg_thread_id = ''T2'', msg_role = ''user'', msg_content = ''Hi'',
                    msg_created_at = 2\<rparr>,
                  \<lparr>msg_id = 2, msg_thread_id = ''T2'', msg_role = ''model'', msg_content = ''Hello'',
                    msg_created_at = 3\<rparr>],
      sqlite_sequence = 2\<rparr>"
  by (simp add: T2_db_def handler_defs)

text \<open>
  The same request on the path that server.ts registers reaches the handler and is
  stored.
\<close>

lemma threads_route_stores_message:
  "messages (serve POST [''api'', ''threads'', ''T2'', ''messages'']
      [(''role'', ''user''), (''content'', ''How are you?'')] (5, 5) T2_db)
   = [\<lparr>msg_id = 1, msg_thread_id = ''T2'', msg_role = ''user'', msg_content = ''Hi'', msg_created_at = 2\<rparr>,
      \<lparr>msg_id = 2, msg_thread_id = ''T2'', msg_role = ''model'', msg_content = ''Hello'', msg_created_at = 3\<rparr>,
      \<lparr>msg_id = 3, msg_thread_id = ''T2'', msg_role = ''user'', msg_content = ''How are you?'',
        msg_created_at = 5\<rparr>]"
  by (simp add: T2_db_eval serve_def handler_defs)

text \<open>
  Claim C2 asks that after a turn whose model call fails the stored state holds the
  user message of the turn and no model message. \<open>handleSendMessage\<close> posts the user
  message to \<open>/api/chats/T2/messages\<close>, and server.ts registers its message route under
  \<open>/api/threads\<close> only, so the request reaches no handler. After the failed turn on
  thread T2 the database is the one before the turn: \<open>listMessages\<close> returns the two
  messages of the prior exchange and not the user message, which only the component
  shows, followed by the error reply.
\<close>

theorem failed_turn_user_message_not_stored:
  "trim (input T2_app) \<noteq> [] \<and> \<not> isLoading T2_app
   \<and> generateContent failing_turn (contents (messages_state T2_app)
         \<lparr>ident = None, role = User, content = input T2_app\<rparr>) = None
   \<and> snd (handleSendMessage failing_turn (T2_app, T2_db)) = T2_db
   \<and> listMessages ''T2'' (snd (handleSendMessage failing_turn (T2_app, T2_db)))
       = Inr [\<lparr>msg_id = 1, msg_thread_id = ''T2'', msg_role = ''user'', msg_content = ''Hi'',
                msg_created_at = 2\<rparr>,
              \<lparr>msg_id = 2, msg_thread_id = ''T2'', msg_role = ''model'', msg_content = ''Hello'',
                msg_created_at = 3\<rparr>]
   \<and> messages_state (fst (handleSendMessage failing_turn (T2_app, T2_db)))
       = [\<lparr>ident = Some 1, role = User, content = ''Hi''\<rparr>,
          \<lparr>ident = Some 2, role = Model, content = ''Hello''\<rparr>,
          \<lparr>ident = None, role = User, content = ''How are you?''\<rparr>,
          \<lparr>ident = None, role = Model, content = ''Error: Failed to connect to AI service.''\<rparr>]"
proof -
  have 1: "trim (input T2_app) \<noteq> []"
    by (simp add: T2_app_def trim_def is_white_space_def)
  have 2: "\<not> isLoading T2_app" by (simp add: T2_app_def)
  have 3: "generateContent failing_turn (contents (messages_state T2_app)
         \<lparr>ident = None, role = User, content = input T2_app\<rparr>) = None"
    by (simp add: failing_turn_def)
  have 4: "snd (handleSendMessage failing_turn (T2_app, T2_db)) = T2_db"
    by (rule component_writes_nothing)
  have 5: "listMessages ''T2'' (snd (handleSendMessage failing_turn (T2_app, T2_db)))
       = Inr [\<lparr>msg_id = 1, msg_thread_id = ''T2'', msg_role = ''user'', msg_content = ''Hi'',
                msg_created_at = 2\<rparr>,
              \<lparr>msg_id = 2, msg_thread_id = ''T2'', msg_role = ''model'', msg_content = ''Hello'',
                msg_created_at = 3\<rparr>]"
    unfolding 4 by (simp add: T2_db_eval listMessages_def select_messages_def)
  have 6: "messages_state (fst (handleSendMessage failing_turn (T2_app, T2_db)))
       = [\<lparr>ident = Some 1, role = User, content = ''Hi''\<rparr>,
          \<lparr>ident = Some 2, role = Model, content = ''Hello''\<rparr>,
          \<lparr>ident = None, role = User, content = ''How are you?''\<rparr>,
          \<lparr>ident = None, role = Model, content = ''Error: Failed to connect to AI service.''\<rparr>]"
    by (simp add: T2_app_def failing_turn_def turn_defs)
  show ?thesis by (intro conjI 1 2 3 4 5 6)
qed

section \<open>The context sent to the model\<close>

lemma generateChatResponse_ignores_history:
  "generateChatResponse sendMessage message history = generateChatResponse sendMessage message []"
  by (simp add: generateChatResponse_def)

text \<open>
  Claim C6. The contents that \<open>handleSendMessage\<close> assembles from the history
  \<open>[m1, ..., mn]\<close> and the new user message \<open>m\<close> are exactly \<open>[m1, ..., mn, m]\<close> as pairs
  of role and text: same roles and contents, in the same order, nothing dropped, the new
  message last. This list is all the model call of a turn depends on: a model call that
  agrees on it gives the same turn. The history itself is not changed: after the turn
  the messages of the component still begin with it.
\<close>

theorem contents_is_history_then_message:
  "map (\<lambda>c. (c_role c, map part_text (parts c))) (contents msgs m)
     = map (\<lambda>x. (role x, [content x])) msgs @ [(role m, [content m])]
   \<and> (g (contents (messages_state cl) \<lparr>ident = None, role = User, content = input cl\<rparr>)
        = generateContent e (contents (messages_state cl) \<lparr>ident = None, role = User, content = input cl\<rparr>)
      \<longrightarrow> handleSendMessage (e\<lparr>generateContent := g\<rparr>) (cl, d) = handleSendMessage e (cl, d))
   \<and> take (length (messages_state cl)) (messages_state (fst (handleSendMessage e (cl, d))))
        = messages_state cl"
proof (intro conjI impI)
  show "map (\<lambda>c. (c_role c, map part_text (parts c))) (contents msgs m)
     = map (\<lambda>x. (role x, [content x])) msgs @ [(role m, [content m])]"
    by (simp add: contents_def comp_def)
next
  assume "g (contents (messages_state cl) \<lparr>ident = None, role = User, content = input cl\<rparr>)
        = generateContent e (contents (messages_state cl) \<lparr>ident = None, role = User, content = input cl\<rparr>)"
  then show "handleSendMessage (e\<lparr>generateContent := g\<rparr>) (cl, d) = handleSendMessage e (cl, d)"
    by (cases "currentChatId cl";
        cases "generateContent e (contents (messages_state cl) \<lparr>ident = None, role = User, content = input cl\<rparr>)")
       (simp_all add: handleSendMessage_def Let_def)
next
  show "take (length (messages_state cl)) (messages_state (fst (handleSendMessage e (cl, d))))
        = messages_state cl"
    by (cases "currentChatId cl";
        cases "generateContent e (contents (messages_state cl) \<lparr>ident = None, role = User, content = input cl\<rparr>)")
       (simp_all add: handleSendMessage_def Let_def)
qed

theorem contents_is_history_then_message_witness:
  "contents (messages_state T2_app) \<lparr>ident = None, role = User, content = input T2_app\<rparr>
     = [\<lparr>c_role = User, parts = [\<lparr>part_text = ''Hi''\<rparr>]\<rparr>,
        \<lparr>c_role = Model, parts = [\<lparr>part_text = ''Hello''\<rparr>]\<rparr>,
        \<lparr>c_role = User, parts = [\<lparr>part_text = ''How are you?''\<rparr>]\<rparr>]
   \<and> handleSendMessage (failing_turn\<lparr>generateContent :=
         (\<lambda>cs. if length cs = 3 then None else Some ''never asked'')\<rparr>) (T2_app, T2_db)
       = handleSendMessage failing_turn (T2_app, T2_db)"
  using contents_is_history_then_message [of "messages_state T2_app"
      "\<lparr>ident = None, role = User, content = input T2_app\<rparr>"
      "\<lambda>cs. if length cs = 3 then None else Some ''never asked''" T2_app failing_turn T2_db]
  by (simp add: T2_db_eval T2_app_def failing_turn_def turn_defs serve_chats_messages)

end
